theory Spec2Isabelle
  imports Main "HOL-Library.Sublist" "HOL-Library.Word"
begin

section \<open>Telemetry: a shallow embedding of src/stats/Telemetry.ts\<close>

text \<open>
  The class \<open>Telemetry\<close> reports the statistics of any number of \<open>IStats\<close> sources over one
  shared channel, a \<open>WebSocketReliable\<close> or a series of HTTP POST requests. Everything runs on
  the single JavaScript event loop: a callback runs to completion, and the only suspension point
  of the source is \<open>await stats.serialize()\<close> in \<open>_send\<close>. The model is therefore a state
  machine whose steps are the callbacks of the source (\<open>report\<close>, the \<open>release\<close> closure, the
  timer callback up to the \<open>await\<close>, the continuation of \<open>_send\<close> after it) and the events of
  the environment. Every call the code makes on a collaborator is appended to a trace of
  effects, in program order.
\<close>

subsection \<open>Values\<close>

type_synonym bytes = "8 word list"

text \<open>
  What \<open>stats.serialize()\<close> resolves to. \<open>_send\<close> tests \<open>data instanceof ArrayBuffer\<close>, then
  \<open>typeof data == 'string'\<close>, and hands anything else to \<open>JSON.stringify\<close>; \<open>Object j\<close> is such
  a value, \<open>j\<close> being the text \<open>JSON.stringify\<close> returns for it.
\<close>

datatype data = ArrayBuffer bytes | String string | Object string

datatype body = BufferBody bytes | StringBody string

text \<open>
  How the promise of \<open>serialize()\<close> settles. A rejection carries a JavaScript value \<open>e\<close>:
  \<open>Rejected None\<close> is a falsy \<open>e\<close> (the source is not ready), \<open>Rejected (Some s)\<close> a truthy one,
  \<open>s\<close> being the text \<open>Util.stringify(e)\<close>.
\<close>

datatype settled = Resolved data | Rejected "string option"

text \<open>An \<open>IStats\<close> object: its identity and \<open>stats.constructor.name\<close>.\<close>

record stats =
  ident :: nat
  cname :: string

text \<open>The result of \<open>new URL(url)\<close>: \<open>url.protocol\<close> and \<open>url.toString()\<close>.\<close>

record URL =
  protocol :: string
  href :: string

datatype error = TypeError | Error string

subsection \<open>The collaborators\<close>

text \<open>
  Modelled from the spec: the class \<open>WebSocketReliable\<close> of \<open>utils/WebSocketReliable\<close>, which
  \<open>Telemetry\<close> uses through \<open>closed\<close>, \<open>open\<close>, \<open>queueing\<close>, \<open>send\<close> and \<open>close\<close>. The spec
  treats it as a black box with open, send and close, a queue of payloads not yet flushed by an
  unfinished connection attempt, and a close that tears the socket down and allows a reopen.
  A new socket is closed; \<open>open\<close> starts a connection attempt; while the attempt is unfinished
  \<open>send\<close> queues the payload, afterwards it transmits it; \<open>close\<close> on a closed socket does nothing.
\<close>

record WebSocketReliable =
  closed_ws :: bool
  opened :: bool
  queueing :: "body list"

definition new_WebSocketReliable :: WebSocketReliable where
  "new_WebSocketReliable = \<lparr>closed_ws = True, opened = False, queueing = []\<rparr>"

definition ws_open :: "WebSocketReliable \<Rightarrow> WebSocketReliable" where
  "ws_open w = w\<lparr>closed_ws := False, opened := False\<rparr>"

definition ws_close :: "WebSocketReliable \<Rightarrow> WebSocketReliable" where
  "ws_close w = (if closed_ws w then w else w\<lparr>closed_ws := True, opened := False, queueing := []\<rparr>)"

definition ws_send :: "WebSocketReliable \<Rightarrow> body \<Rightarrow> string + WebSocketReliable" where
  "ws_send w b =
     (if closed_ws w then Inl ''Open socket before to send data''
      else if opened w then Inr w
      else Inr (w\<lparr>queueing := queueing w @ [b]\<rparr>))"

text \<open>The connection attempt succeeds (the queue is flushed), or the connection is lost.\<close>

definition ws_onopen :: "WebSocketReliable \<Rightarrow> WebSocketReliable" where
  "ws_onopen w = (if closed_ws w then w else w\<lparr>opened := True, queueing := []\<rparr>)"

definition ws_onclose :: "WebSocketReliable \<Rightarrow> WebSocketReliable" where
  "ws_onclose w = ws_close w"

text \<open>
  An HTTP request issued by \<open>fetch\<close>, with the \<open>AbortController\<close> whose signal it was given.
  \<open>_send\<close> creates one controller for each request, so a controller is the index of its
  request. \<open>abort()\<close> cancels a request that is still pending and does nothing otherwise.
\<close>

datatype request_state = Pending | Aborted | Completed | Failed

record request =
  r_body :: body
  r_mime :: string
  r_state :: request_state

definition abort_request :: "request \<Rightarrow> request" where
  "abort_request r = (if r_state r = Pending then r\<lparr>r_state := Aborted\<rparr> else r)"

subsection \<open>Effects\<close>

datatype effect =
    OnLog string
  | OnError string
  | ClearInterval nat
  | Serialize nat
  | WsOpen string
  | WsClose
  | WsSend body
  | Abort nat
  | Fetch nat string body string

subsection \<open>The state\<close>

text \<open>
  One call of \<open>report\<close> creates a session: the closure environment of that call, with the
  captured \<open>stats\<close> and \<open>frequency\<close>, the variable \<open>release\<close> (\<open>release_set\<close> is false once it
  was set to \<open>undefined\<close>) and the timer \<open>interval\<close> (\<open>armed\<close> while it can still fire). The code
  only tests whether \<open>frequency\<close> is falsy.
\<close>

record session =
  s_stats :: stats
  frequency :: int
  release_set :: bool
  armed :: bool

text \<open>
  The fields \<open>_url\<close>, \<open>_reporting\<close>, \<open>_ws\<close> and \<open>_fetch\<close> of the class, and around them: the
  sessions, in the order of their creation; for each source the session whose closures are
  installed in \<open>stats.onRelease\<close>, \<open>stats.onError\<close> and \<open>stats.onLog\<close>; the sessions with a tick
  suspended at \<open>await stats.serialize()\<close>; the HTTP requests issued so far; the trace.
\<close>

record Telemetry =
  url :: string
  reporting :: int
  ws :: "WebSocketReliable option"
  fetch :: "nat option"
  sessions :: "session list"
  installed :: "nat \<rightharpoonup> nat"
  awaiting :: "nat list"
  requests :: "request list"
  trace :: "effect list"

definition emit :: "effect list \<Rightarrow> Telemetry \<Rightarrow> Telemetry" where
  "emit es t = t\<lparr>trace := trace t @ es\<rparr>"

subsection \<open>The constructor\<close>

definition new_Telemetry :: "URL \<Rightarrow> WebSocketReliable option \<Rightarrow> Telemetry" where
  "new_Telemetry u w =
     \<lparr>url = href u, reporting = 0, ws = w, fetch = None, sessions = [],
      installed = Map.empty, awaiting = [], requests = [], trace = []\<rparr>"

text \<open>\<open>None\<close> is an argument that \<open>new URL(url)\<close> rejects with a \<open>TypeError\<close>.\<close>

definition constructor :: "URL option \<Rightarrow> error + Telemetry" where
  "constructor arg =
     (case arg of
        None \<Rightarrow> Inl TypeError
      | Some u \<Rightarrow>
          if prefix ''ws'' (protocol u) then Inr (new_Telemetry u (Some new_WebSocketReliable))
          else if \<not> prefix ''http'' (protocol u)
          then Inl (Error (''Protocol '' @ protocol u @ '' not supported''))
          else Inr (new_Telemetry u None))"

subsection \<open>report and the release closure\<close>

definition abort :: "nat \<Rightarrow> Telemetry \<Rightarrow> Telemetry" where
  "abort c t =
     emit [Abort c]
       (t\<lparr>requests := (if c < length (requests t)
                        then (requests t)[c := abort_request (requests t ! c)]
                        else requests t)\<rparr>)"

text \<open>The lines after \<open>// close useless connection!\<close>.\<close>

definition close_connection :: "Telemetry \<Rightarrow> Telemetry" where
  "close_connection t =
     (let t1 = (case ws t of
                  Some w \<Rightarrow> emit [WsClose] (t\<lparr>ws := Some (ws_close w)\<rparr>)
                | None \<Rightarrow> t)
      in case fetch t1 of Some c \<Rightarrow> abort c t1 | None \<Rightarrow> t1)"

text \<open>The closure \<open>release\<close> of session \<open>sid\<close>.\<close>

definition release :: "nat \<Rightarrow> Telemetry \<Rightarrow> Telemetry" where
  "release sid t =
     (if sid < length (sessions t) then
        let s = sessions t ! sid in
        if \<not> release_set s then t
        else
          let t1 = t\<lparr>sessions := (sessions t)[sid := s\<lparr>release_set := False, armed := False\<rparr>]\<rparr>;
              t2 = emit [ClearInterval sid, OnLog (''Stop '' @ cname (s_stats s) @ '' reporting'')] t1;
              t3 = t2\<lparr>reporting := reporting t2 - 1\<rparr>
          in if reporting t3 > 0 then t3 else close_connection t3
      else t)"

text \<open>The decimal text of a number, as string concatenation gives it.\<close>

fun digits :: "nat \<Rightarrow> string" where
  "digits n = (if n < 10 then [''0123456789'' ! n] else digits (n div 10) @ [''0123456789'' ! (n mod 10)])"

declare digits.simps [simp del]

definition number_text :: "int \<Rightarrow> string" where
  "number_text i = (if i < 0 then ''-'' @ digits (nat (- i)) else digits (nat i))"

definition report :: "stats \<Rightarrow> int \<Rightarrow> Telemetry \<Rightarrow> Telemetry" where
  "report st f t =
     (let sid = length (sessions t);
          t1 = t\<lparr>installed := (installed t)(ident st \<mapsto> sid),
                 sessions := sessions t @ [\<lparr>s_stats = st, frequency = f, release_set = True, armed = True\<rparr>]\<rparr>;
          t2 = t1\<lparr>reporting := reporting t1 + 1\<rparr>
      in emit [OnLog (''Start '' @ cname st @ '' reporting every '' @ number_text f @ '' seconds'')] t2)"

subsection \<open>The timer callback and _send\<close>

definition encode :: "data \<Rightarrow> string \<times> body" where
  "encode d =
     (case d of
        ArrayBuffer b \<Rightarrow> (''application/octet-stream'', BufferBody b)
      | String s \<Rightarrow> (''text/plain'', StringBody s)
      | Object j \<Rightarrow> (''application/json'', StringBody j))"

text \<open>
  The callback given to \<open>setInterval\<close> or \<open>setTimeout\<close>, up to the first suspension: the
  self-release of a session of frequency 0, then the call of \<open>_send\<close>, which calls
  \<open>stats.serialize()\<close> and waits for it.
\<close>

definition timer_callback :: "nat \<Rightarrow> Telemetry \<Rightarrow> Telemetry" where
  "timer_callback sid t =
     (let s = sessions t ! sid;
          t1 = (if frequency s = 0 \<and> release_set s then release sid t else t);
          t2 = emit [Serialize sid] t1
      in t2\<lparr>awaiting := awaiting t2 @ [sid]\<rparr>)"

text \<open>
  The rest of \<open>_send\<close>, once the promise of \<open>serialize()\<close> has settled. The first component is
  the exception \<open>_send\<close> throws (as \<open>Util.stringify\<close> prints it), the second the state it leaves.
  The promise that \<open>fetch\<close> returns is dropped: \<open>_send\<close> neither awaits nor returns it.
\<close>

definition send' :: "settled \<Rightarrow> Telemetry \<Rightarrow> string option \<times> Telemetry" where
  "send' r t =
     (case r of
        Rejected None \<Rightarrow> (None, t)
      | Rejected (Some e) \<Rightarrow> (Some e, t)
      | Resolved d \<Rightarrow>
          let (mimeType, b) = encode d in
          (case ws t of
            Some w \<Rightarrow>
              let (w1, es) = (if closed_ws w then (ws_open w, [WsOpen (url t)]) else (w, []));
                  w2 = w1\<lparr>queueing := []\<rparr>
              in (case ws_send w2 b of
                    Inl e \<Rightarrow> (Some e, emit (es @ [WsSend b]) (t\<lparr>ws := Some w2\<rparr>))
                  | Inr w3 \<Rightarrow> (None, emit (es @ [WsSend b]) (t\<lparr>ws := Some w3\<rparr>)))
          | None \<Rightarrow>
              let t1 = (case fetch t of Some c \<Rightarrow> abort c t | None \<Rightarrow> t);
                  c' = length (requests t1);
                  t2 = t1\<lparr>fetch := Some c',
                         requests := requests t1 @ [\<lparr>r_body = b, r_mime = mimeType, r_state = Pending\<rparr>]\<rparr>
              in (None, emit [Fetch c' (url t) b mimeType] t2)))"

text \<open>The \<open>try\<close>/\<open>catch\<close> of the timer callback around \<open>await this._send(stats)\<close>.\<close>

definition resume :: "nat \<Rightarrow> settled \<Rightarrow> Telemetry \<Rightarrow> Telemetry" where
  "resume sid r t =
     (case send' r t of
        (None, t') \<Rightarrow> t'
      | (Some e, t') \<Rightarrow> emit [OnError (cname (s_stats (sessions t ! sid)) @ '' error, '' @ e)] t')"

subsection \<open>The event loop\<close>

text \<open>
  \<open>Report\<close>: a caller invokes \<open>report(stats, frequency)\<close>. \<open>Release\<close>, \<open>StatsError\<close>, \<open>StatsLog\<close>:
  the source with that identity invokes its \<open>onRelease\<close>, \<open>onError\<close>, \<open>onLog\<close>. \<open>Timer\<close>: the
  timer of a session fires. \<open>Settle\<close>: the promise a suspended tick waits for settles.
  \<open>WsOnOpen\<close>, \<open>WsOnClose\<close>: the connection of the socket is established, or lost.
  \<open>FetchSettle\<close>: a pending HTTP request ends, with success or without. An event that cannot
  happen in the state (a timer that is not armed, a tick that is not suspended) leaves it as it is.
\<close>

datatype event =
    Report stats int
  | Release nat
  | StatsError nat string
  | StatsLog nat string
  | Timer nat
  | Settle nat settled
  | WsOnOpen
  | WsOnClose
  | FetchSettle nat bool

fun step :: "event \<Rightarrow> Telemetry \<Rightarrow> Telemetry" where
  "step (Report st f) t = report st f t"
| "step (Release i) t = (case installed t i of Some sid \<Rightarrow> release sid t | None \<Rightarrow> t)"
| "step (StatsError i e) t =
     (case installed t i of
        Some sid \<Rightarrow> emit [OnError (cname (s_stats (sessions t ! sid)) @ '' error, '' @ e)] t
      | None \<Rightarrow> t)"
| "step (StatsLog i l) t =
     (case installed t i of
        Some sid \<Rightarrow> emit [OnError (cname (s_stats (sessions t ! sid)) @ '', '' @ l)] t
      | None \<Rightarrow> t)"
| "step (Timer sid) t =
     (if sid < length (sessions t) \<and> armed (sessions t ! sid) then
        (if frequency (sessions t ! sid) = 0
         then timer_callback sid (t\<lparr>sessions := (sessions t)[sid := (sessions t ! sid)\<lparr>armed := False\<rparr>]\<rparr>)
         else timer_callback sid t)
      else t)"
| "step (Settle sid r) t =
     (if sid \<in> set (awaiting t) then resume sid r (t\<lparr>awaiting := remove1 sid (awaiting t)\<rparr>) else t)"
| "step WsOnOpen t = (case ws t of Some w \<Rightarrow> t\<lparr>ws := Some (ws_onopen w)\<rparr> | None \<Rightarrow> t)"
| "step WsOnClose t = (case ws t of Some w \<Rightarrow> t\<lparr>ws := Some (ws_onclose w)\<rparr> | None \<Rightarrow> t)"
| "step (FetchSettle c ok) t =
     (if c < length (requests t) \<and> r_state (requests t ! c) = Pending
      then t\<lparr>requests := (requests t)[c := (requests t ! c)\<lparr>r_state := (if ok then Completed else Failed)\<rparr>]\<rparr>
      else t)"

fun exec :: "event list \<Rightarrow> Telemetry \<Rightarrow> Telemetry" where
  "exec [] t = t"
| "exec (e # es) t = exec es (step e t)"

text \<open>A Telemetry is built, then the events happen in order.\<close>

definition run :: "URL option \<Rightarrow> event list \<Rightarrow> error + Telemetry" where
  "run arg es = (case constructor arg of Inl e \<Rightarrow> Inl e | Inr t \<Rightarrow> Inr (exec es t))"

subsection \<open>The words of the specification\<close>

text \<open>
  The kind of the channel of a Telemetry, and the classification of a destination the
  specification gives: a scheme that begins with \<open>ws\<close> or \<open>wss\<close> selects the socket channel,
  one that begins with \<open>http\<close> or \<open>https\<close> the HTTP channel. The scheme is \<open>url.protocol\<close>
  without its colon.
\<close>

datatype channel_kind = SocketChannel | HttpChannel

definition kind :: "Telemetry \<Rightarrow> channel_kind" where
  "kind t = (case ws t of Some w \<Rightarrow> SocketChannel | None \<Rightarrow> HttpChannel)"

definition scheme :: "URL \<Rightarrow> string" where
  "scheme u = takeWhile (\<lambda>c. c \<noteq> CHR '':'') (protocol u)"

definition socket_family :: "string list" where
  "socket_family = [''ws'', ''wss'']"

definition http_family :: "string list" where
  "http_family = [''http'', ''https'']"

definition in_family :: "string list \<Rightarrow> string \<Rightarrow> bool" where
  "in_family fam s = list_ex (\<lambda>p. prefix p s) fam"

subsection \<open>Observations\<close>

text \<open>
  The number of sessions whose \<open>release\<close> is still defined; what a release does to every
  session it stops (\<open>clearInterval\<close> and the log) and what the lines after
  \<open>// close useless connection!\<close> do on top of it: one \<open>close()\<close> if there is a websocket, one
  \<open>abort()\<close> if there is a request controller.
\<close>

definition active :: "Telemetry \<Rightarrow> nat" where
  "active t = length (filter release_set (sessions t))"

definition closing_effects :: "Telemetry \<Rightarrow> effect list" where
  "closing_effects t =
     (case ws t of Some w \<Rightarrow> [WsClose] | None \<Rightarrow> []) @
     (case fetch t of Some c \<Rightarrow> [Abort c] | None \<Rightarrow> [])"

definition stop_effects :: "nat \<Rightarrow> Telemetry \<Rightarrow> effect list" where
  "stop_effects sid t =
     [ClearInterval sid, OnLog (''Stop '' @ cname (s_stats (sessions t ! sid)) @ '' reporting'')]"

text \<open>The counter agrees with the sessions.\<close>

definition counted :: "Telemetry \<Rightarrow> bool" where
  "counted t = (reporting t = int (active t))"

text \<open>
  The effects a state \<open>t'\<close> has added to those of an earlier state \<open>t\<close>, and the kinds of
  effects: a transmission is a \<open>send\<close> on the websocket or an HTTP request, an error log a
  call of \<open>onError\<close>. \<open>occurs_before a b tr\<close>: \<open>a\<close> occurs in \<open>tr\<close> before the first \<open>b\<close>.
\<close>

definition since :: "Telemetry \<Rightarrow> Telemetry \<Rightarrow> effect list" where
  "since t t' = drop (length (trace t)) (trace t')"

fun is_serialize :: "effect \<Rightarrow> bool" where
  "is_serialize (Serialize sid) = True"
| "is_serialize e = False"

fun is_transmission :: "effect \<Rightarrow> bool" where
  "is_transmission (WsSend b) = True"
| "is_transmission (Fetch c u b m) = True"
| "is_transmission e = False"

fun is_error_log :: "effect \<Rightarrow> bool" where
  "is_error_log (OnError e) = True"
| "is_error_log e = False"

definition occurs_before :: "effect \<Rightarrow> effect \<Rightarrow> effect list \<Rightarrow> bool" where
  "occurs_before a b tr = (a \<in> set (takeWhile (\<lambda>e. e \<noteq> b) tr))"

text \<open>The request of controller \<open>c\<close> was aborted while it was pending.\<close>

definition cancelled :: "nat \<Rightarrow> Telemetry \<Rightarrow> bool" where
  "cancelled c t = (c < length (requests t) \<and> r_state (requests t ! c) = Aborted)"

text \<open>
  The event is a call of \<open>report\<close> with the source of identity \<open>i\<close>: the only event that
  replaces the closure in that source's \<open>onRelease\<close>.
\<close>

fun is_report_of :: "nat \<Rightarrow> event \<Rightarrow> bool" where
  "is_report_of i (Report st f) = (ident st = i)"
| "is_report_of i e = False"

subsection \<open>Concrete inputs\<close>

definition socket_url :: URL where
  "socket_url = \<lparr>protocol = ''wss:'', href = ''wss://address/metrics''\<rparr>"

definition http_url :: URL where
  "http_url = \<lparr>protocol = ''https:'', href = ''https://address/metrics''\<rparr>"

definition streamer_stats :: stats where
  "streamer_stats = \<lparr>ident = 0, cname = ''StreamerStats''\<rparr>"

definition player_stats :: stats where
  "player_stats = \<lparr>ident = 1, cname = ''PlayerStats''\<rparr>"

definition socket_telemetry :: Telemetry where
  "socket_telemetry = new_Telemetry socket_url (Some new_WebSocketReliable)"

definition http_telemetry :: Telemetry where
  "http_telemetry = new_Telemetry http_url None"

section \<open>The constructor\<close>

lemma prefix_takeWhile:
  assumes "\<forall>c \<in> set p. P c"
  shows "prefix p (takeWhile P xs) = prefix p xs"
proof
  assume "prefix p (takeWhile P xs)"
  then obtain r where "takeWhile P xs = p @ r" by (auto simp: prefix_def)
  then have "xs = p @ r @ dropWhile P xs"
    by (metis append.assoc takeWhile_dropWhile_id)
  then show "prefix p xs" by (metis prefixI)
next
  assume "prefix p xs"
  then obtain r where "xs = p @ r" by (auto simp: prefix_def)
  with assms show "prefix p (takeWhile P xs)" by (simp add: takeWhile_append2)
qed

lemma socket_family_iff: "in_family socket_family (scheme u) = prefix ''ws'' (protocol u)"
proof -
  have a: "prefix ''ws'' (scheme u) = prefix ''ws'' (protocol u)"
    unfolding scheme_def by (rule prefix_takeWhile) simp
  have b: "prefix ''wss'' (scheme u) \<Longrightarrow> prefix ''ws'' (scheme u)"
    by (auto simp: prefix_def)
  show ?thesis using a b by (auto simp: in_family_def socket_family_def)
qed

lemma http_family_iff: "in_family http_family (scheme u) = prefix ''http'' (protocol u)"
proof -
  have a: "prefix ''http'' (scheme u) = prefix ''http'' (protocol u)"
    unfolding scheme_def by (rule prefix_takeWhile) simp
  have b: "prefix ''https'' (scheme u) \<Longrightarrow> prefix ''http'' (scheme u)"
    by (auto simp: prefix_def)
  show ?thesis using a b by (auto simp: in_family_def http_family_def)
qed

lemma ws_not_http: "prefix ''ws'' s \<Longrightarrow> \<not> prefix ''http'' s"
  by (auto simp: prefix_def)

text \<open>
  C5. For every destination URL: a scheme of the WebSocket family gives a Telemetry whose
  channel is a socket (a \<open>WebSocketReliable\<close> is allocated), a scheme of the HTTP family gives
  one whose channel is HTTP (no websocket), and for any other scheme the constructor fails with
  an error and produces no Telemetry.
\<close>

theorem constructor_channel_kind:
  "(in_family socket_family (scheme u) \<longrightarrow>
      constructor (Some u) = Inr (new_Telemetry u (Some new_WebSocketReliable)) \<and>
      kind (new_Telemetry u (Some new_WebSocketReliable)) = SocketChannel) \<and>
   (in_family http_family (scheme u) \<longrightarrow>
      constructor (Some u) = Inr (new_Telemetry u None) \<and>
      kind (new_Telemetry u None) = HttpChannel \<and> ws (new_Telemetry u None) = None) \<and>
   (\<not> in_family socket_family (scheme u) \<and> \<not> in_family http_family (scheme u) \<longrightarrow>
      constructor (Some u) = Inl (Error (''Protocol '' @ protocol u @ '' not supported'')))"
  using ws_not_http [of "protocol u"]
  by (auto simp: socket_family_iff http_family_iff constructor_def kind_def new_Telemetry_def)

theorem constructor_channel_kind_witness:
  "in_family socket_family (scheme \<lparr>protocol = ''wss:'', href = ''wss://address/metrics''\<rparr>) \<and>
   (\<exists>t. constructor (Some \<lparr>protocol = ''wss:'', href = ''wss://address/metrics''\<rparr>) = Inr t \<and> kind t = SocketChannel) \<and>
   in_family http_family (scheme \<lparr>protocol = ''https:'', href = ''https://address/metrics''\<rparr>) \<and>
   (\<exists>t. constructor (Some \<lparr>protocol = ''https:'', href = ''https://address/metrics''\<rparr>) = Inr t \<and> kind t = HttpChannel) \<and>
   \<not> in_family socket_family (scheme \<lparr>protocol = ''ftp:'', href = ''ftp://address/metrics''\<rparr>) \<and>
   \<not> in_family http_family (scheme \<lparr>protocol = ''ftp:'', href = ''ftp://address/metrics''\<rparr>) \<and>
   constructor (Some \<lparr>protocol = ''ftp:'', href = ''ftp://address/metrics''\<rparr>) = Inl (Error ''Protocol ftp: not supported'')"
proof -
  have a: "in_family socket_family (scheme \<lparr>protocol = ''wss:'', href = ''wss://address/metrics''\<rparr>)"
    by (simp add: in_family_def socket_family_def scheme_def)
  have b: "in_family http_family (scheme \<lparr>protocol = ''https:'', href = ''https://address/metrics''\<rparr>)"
    by (simp add: in_family_def http_family_def scheme_def)
  have c: "\<not> in_family socket_family (scheme \<lparr>protocol = ''ftp:'', href = ''ftp://address/metrics''\<rparr>) \<and>
           \<not> in_family http_family (scheme \<lparr>protocol = ''ftp:'', href = ''ftp://address/metrics''\<rparr>)"
    by (simp add: in_family_def socket_family_def http_family_def scheme_def)
  show ?thesis
    using a b c
      constructor_channel_kind [of "\<lparr>protocol = ''wss:'', href = ''wss://address/metrics''\<rparr>"]
      constructor_channel_kind [of "\<lparr>protocol = ''https:'', href = ''https://address/metrics''\<rparr>"]
      constructor_channel_kind [of "\<lparr>protocol = ''ftp:'', href = ''ftp://address/metrics''\<rparr>"]
    by simp
qed

section \<open>Projections\<close>

lemma emit_fields [simp]:
  "url (emit es t) = url t" "reporting (emit es t) = reporting t" "ws (emit es t) = ws t"
  "fetch (emit es t) = fetch t" "sessions (emit es t) = sessions t"
  "installed (emit es t) = installed t" "awaiting (emit es t) = awaiting t"
  "requests (emit es t) = requests t" "trace (emit es t) = trace t @ es"
  by (simp_all add: emit_def)

lemma abort_fields [simp]:
  "url (abort c t) = url t" "reporting (abort c t) = reporting t" "ws (abort c t) = ws t"
  "fetch (abort c t) = fetch t" "sessions (abort c t) = sessions t"
  "installed (abort c t) = installed t" "awaiting (abort c t) = awaiting t"
  "trace (abort c t) = trace t @ [Abort c]"
  "length (requests (abort c t)) = length (requests t)"
  by (simp_all add: abort_def)

lemma close_connection_fields [simp]:
  "url (close_connection t) = url t" "reporting (close_connection t) = reporting t"
  "fetch (close_connection t) = fetch t" "sessions (close_connection t) = sessions t"
  "installed (close_connection t) = installed t" "awaiting (close_connection t) = awaiting t"
  "ws (close_connection t) = map_option ws_close (ws t)"
  "trace (close_connection t) = trace t @ closing_effects t"
  "length (requests (close_connection t)) = length (requests t)"
  by (simp_all add: close_connection_def closing_effects_def Let_def split: option.splits)

section \<open>The release closure\<close>

lemma release_consumed:
  "\<not> (sid < length (sessions t) \<and> release_set (sessions t ! sid)) \<Longrightarrow> release sid t = t"
  by (auto simp: release_def Let_def)

lemma release_fields:
  assumes "sid < length (sessions t)" "release_set (sessions t ! sid)"
  shows "reporting (release sid t) = reporting t - 1"
    and "sessions (release sid t) = (sessions t)[sid := (sessions t ! sid)\<lparr>release_set := False, armed := False\<rparr>]"
    and "installed (release sid t) = installed t"
    and "awaiting (release sid t) = awaiting t"
    and "url (release sid t) = url t"
    and "fetch (release sid t) = fetch t"
    and "length (requests (release sid t)) = length (requests t)"
  using assms by (simp_all add: release_def Let_def)

lemma release_open:
  assumes "sid < length (sessions t)" "release_set (sessions t ! sid)" "1 < reporting t"
  shows "trace (release sid t) = trace t @ stop_effects sid t"
    and "ws (release sid t) = ws t"
    and "requests (release sid t) = requests t"
  using assms by (simp_all add: release_def Let_def stop_effects_def)

lemma release_close:
  assumes "sid < length (sessions t)" "release_set (sessions t ! sid)" "reporting t \<le> 1"
  shows "trace (release sid t) = trace t @ stop_effects sid t @ closing_effects t"
    and "ws (release sid t) = map_option ws_close (ws t)"
  using assms by (simp_all add: release_def Let_def stop_effects_def closing_effects_def)

lemma release_close_requests:
  assumes "sid < length (sessions t)" "release_set (sessions t ! sid)" "reporting t \<le> 1"
    and "fetch t = Some c" "c < length (requests t)"
  shows "r_state (requests (release sid t) ! c) \<noteq> Pending"
  using assms
  by (simp add: release_def Let_def close_connection_def abort_def emit_def abort_request_def
      split: option.splits)

section \<open>The counter counts the sessions that are not released\<close>

lemma filter_update_drop:
  "i < length xs \<Longrightarrow> P (xs ! i) \<Longrightarrow> \<not> P y \<Longrightarrow>
   Suc (length (filter P (xs[i := y]))) = length (filter P xs)"
proof (induction xs arbitrary: i)
  case Nil
  then show ?case by simp
next
  case (Cons x xs)
  then show ?case by (cases i) auto
qed

lemma filter_update_keep:
  "i < length xs \<Longrightarrow> P y = P (xs ! i) \<Longrightarrow>
   length (filter P (xs[i := y])) = length (filter P xs)"
proof (induction xs arbitrary: i)
  case Nil
  then show ?case by simp
next
  case (Cons x xs)
  then show ?case by (cases i) auto
qed

lemma active_release:
  assumes "sid < length (sessions t)" "release_set (sessions t ! sid)"
  shows "Suc (active (release sid t)) = active t"
  using assms by (simp add: active_def release_fields filter_update_drop)

lemma counted_release: "counted t \<Longrightarrow> counted (release sid t)"
proof (cases "sid < length (sessions t) \<and> release_set (sessions t ! sid)")
  case True
  assume "counted t"
  with True active_release [of sid t] show ?thesis
    by (simp add: counted_def release_fields)
next
  case False
  assume "counted t"
  with False show ?thesis by (simp add: release_consumed)
qed

lemma counted_report: "counted t \<Longrightarrow> counted (report st f t)"
  by (simp add: counted_def active_def report_def Let_def)

lemma counted_sessions_cong:
  "sessions t' = sessions t \<Longrightarrow> reporting t' = reporting t \<Longrightarrow> counted t \<Longrightarrow> counted t'"
  by (simp add: counted_def active_def)

lemma send'_fields [simp]:
  "sessions (snd (send' r t)) = sessions t" "reporting (snd (send' r t)) = reporting t"
  "installed (snd (send' r t)) = installed t" "awaiting (snd (send' r t)) = awaiting t"
  "url (snd (send' r t)) = url t"
  by (auto simp: send'_def Let_def split: settled.splits option.splits prod.splits sum.splits)

lemma resume_fields [simp]:
  "sessions (resume sid r t) = sessions t" "reporting (resume sid r t) = reporting t"
  "installed (resume sid r t) = installed t" "awaiting (resume sid r t) = awaiting t"
  "url (resume sid r t) = url t"
proof -
  obtain x t' where eq: "send' r t = (x, t')" by (cases "send' r t")
  then have "t' = snd (send' r t)" by simp
  then have f: "sessions t' = sessions t" "reporting t' = reporting t" "installed t' = installed t"
      "awaiting t' = awaiting t" "url t' = url t" by simp_all
  show "sessions (resume sid r t) = sessions t" "reporting (resume sid r t) = reporting t"
    "installed (resume sid r t) = installed t" "awaiting (resume sid r t) = awaiting t"
    "url (resume sid r t) = url t"
    using eq f by (cases x; simp add: resume_def)+
qed

lemma counted_timer_callback: "counted t \<Longrightarrow> counted (timer_callback sid t)"
proof -
  assume c: "counted t"
  let ?t1 = "if frequency (sessions t ! sid) = 0 \<and> release_set (sessions t ! sid) then release sid t else t"
  have "counted ?t1" using c by (simp add: counted_release)
  moreover have "sessions (timer_callback sid t) = sessions ?t1" "reporting (timer_callback sid t) = reporting ?t1"
    by (simp_all add: timer_callback_def Let_def)
  ultimately show ?thesis by (rule counted_sessions_cong [rotated 2])
qed

lemma counted_disarm:
  "sid < length (sessions t) \<Longrightarrow> counted t \<Longrightarrow>
   counted (t\<lparr>sessions := (sessions t)[sid := (sessions t ! sid)\<lparr>armed := False\<rparr>]\<rparr>)"
  by (simp add: counted_def active_def filter_update_keep)

lemma counted_step: "counted t \<Longrightarrow> counted (step e t)"
proof (cases e)
  case (Report st f)
  assume "counted t" then show ?thesis using Report by (simp add: counted_report)
next
  case (Release i)
  assume "counted t" then show ?thesis using Release by (simp add: counted_release split: option.splits)
next
  case (Timer sid)
  assume "counted t" then show ?thesis using Timer
    by (simp add: counted_timer_callback counted_disarm)
next
  case (Settle sid r)
  assume c: "counted t"
  have "counted (t\<lparr>awaiting := remove1 sid (awaiting t)\<rparr>)"
    using c by (simp add: counted_def active_def)
  then have "counted (resume sid r (t\<lparr>awaiting := remove1 sid (awaiting t)\<rparr>))"
    by (rule counted_sessions_cong [rotated 2]) simp_all
  then show ?thesis using c Settle by simp
next
  case (StatsError i m)
  assume "counted t" then show ?thesis using StatsError
    by (auto simp: counted_def active_def split: option.splits)
next
  case (StatsLog i m)
  assume "counted t" then show ?thesis using StatsLog
    by (auto simp: counted_def active_def split: option.splits)
next
  case WsOnOpen
  assume "counted t" then show ?thesis using WsOnOpen
    by (auto simp: counted_def active_def split: option.splits)
next
  case WsOnClose
  assume "counted t" then show ?thesis using WsOnClose
    by (auto simp: counted_def active_def split: option.splits)
next
  case (FetchSettle c ok)
  assume "counted t" then show ?thesis using FetchSettle
    by (auto simp: counted_def active_def)
qed

lemma counted_exec: "counted t \<Longrightarrow> counted (exec es t)"
  by (induction es arbitrary: t) (simp_all add: counted_step)

lemma counted_run: "run arg es = Inr t \<Longrightarrow> counted t"
proof -
  assume r: "run arg es = Inr t"
  then obtain t0 where c: "constructor arg = Inr t0" and t: "t = exec es t0"
    by (auto simp: run_def split: sum.splits)
  from c have "counted t0"
    by (auto simp: constructor_def counted_def active_def new_Telemetry_def split: option.splits if_splits)
  with t show ?thesis by (simp add: counted_exec)
qed

lemma active_pos:
  "sid < length (sessions t) \<Longrightarrow> release_set (sessions t ! sid) \<Longrightarrow> 0 < active t"
  using active_release [of sid t] by simp

text \<open>
  C1. For every Telemetry, in every state it can reach: the counter \<open>reporting\<close> is never
  negative (it is the number of sessions not yet released); a release that leaves it greater
  than 0 closes nothing (it cancels the timer and logs, the websocket and the requests stay as
  they are); the release that makes it 0 closes the channel exactly once: one \<open>close()\<close> of the
  websocket, or one \<open>abort()\<close> of the request controller, after which no request is pending.
  So when N sessions are active and N-1 release, no close occurs, and the Nth release closes.
\<close>

theorem reporting_gates_channel:
  assumes "run arg es = Inr t"
  shows "0 \<le> reporting t \<and> reporting t = int (active t) \<and>
    (\<forall>sid. sid < length (sessions t) \<and> release_set (sessions t ! sid) \<longrightarrow>
       reporting (release sid t) = reporting t - 1 \<and> 0 \<le> reporting (release sid t) \<and>
       (0 < reporting (release sid t) \<longrightarrow>
          trace (release sid t) = trace t @ stop_effects sid t \<and>
          ws (release sid t) = ws t \<and> requests (release sid t) = requests t) \<and>
       (reporting (release sid t) = 0 \<longrightarrow>
          trace (release sid t) = trace t @ stop_effects sid t @ closing_effects t \<and>
          ws (release sid t) = map_option ws_close (ws t) \<and>
          (\<forall>c. fetch t = Some c \<and> c < length (requests t) \<longrightarrow>
               r_state (requests (release sid t) ! c) \<noteq> Pending)))"
proof -
  have c: "reporting t = int (active t)"
    using counted_run [OF assms] by (simp add: counted_def)
  have "reporting (release sid t) = reporting t - 1 \<and> 0 \<le> reporting (release sid t) \<and>
       (0 < reporting (release sid t) \<longrightarrow>
          trace (release sid t) = trace t @ stop_effects sid t \<and>
          ws (release sid t) = ws t \<and> requests (release sid t) = requests t) \<and>
       (reporting (release sid t) = 0 \<longrightarrow>
          trace (release sid t) = trace t @ stop_effects sid t @ closing_effects t \<and>
          ws (release sid t) = map_option ws_close (ws t) \<and>
          (\<forall>c. fetch t = Some c \<and> c < length (requests t) \<longrightarrow>
               r_state (requests (release sid t) ! c) \<noteq> Pending))"
    if a: "sid < length (sessions t)" "release_set (sessions t ! sid)" for sid
  proof -
    have p: "1 \<le> reporting t" using c active_pos [OF a] by simp
    have d: "reporting (release sid t) = reporting t - 1" using a by (simp add: release_fields)
    show ?thesis
      using p d release_open [OF a] release_close [OF a] release_close_requests [OF a]
      by auto
  qed
  then have r: "\<forall>sid. sid < length (sessions t) \<and> release_set (sessions t ! sid) \<longrightarrow>
       reporting (release sid t) = reporting t - 1 \<and> 0 \<le> reporting (release sid t) \<and>
       (0 < reporting (release sid t) \<longrightarrow>
          trace (release sid t) = trace t @ stop_effects sid t \<and>
          ws (release sid t) = ws t \<and> requests (release sid t) = requests t) \<and>
       (reporting (release sid t) = 0 \<longrightarrow>
          trace (release sid t) = trace t @ stop_effects sid t @ closing_effects t \<and>
          ws (release sid t) = map_option ws_close (ws t) \<and>
          (\<forall>c. fetch t = Some c \<and> c < length (requests t) \<longrightarrow>
               r_state (requests (release sid t) ! c) \<noteq> Pending))"
    by blast
  have "0 \<le> reporting t" using c by simp
  with c r show ?thesis by blast
qed


lemmas eval_defs =
  run_def constructor_def new_Telemetry_def new_WebSocketReliable_def socket_url_def http_url_def
  streamer_stats_def player_stats_def socket_telemetry_def http_telemetry_def
  report_def release_def close_connection_def abort_def abort_request_def emit_def
  timer_callback_def resume_def send'_def encode_def ws_open_def ws_close_def ws_send_def
  ws_onopen_def ws_onclose_def Let_def

theorem reporting_gates_channel_witness:
  "run (Some socket_url) [Report streamer_stats 1, Report player_stats 1, Release 0] =
     Inr (exec [Report streamer_stats 1, Report player_stats 1, Release 0] socket_telemetry) \<and>
   reporting (exec [Report streamer_stats 1, Report player_stats 1, Release 0] socket_telemetry) = 1 \<and>
   reporting (release 1 (exec [Report streamer_stats 1, Report player_stats 1, Release 0] socket_telemetry)) = 0 \<and>
   trace (release 1 (exec [Report streamer_stats 1, Report player_stats 1, Release 0] socket_telemetry)) =
     trace (exec [Report streamer_stats 1, Report player_stats 1, Release 0] socket_telemetry) @
     [ClearInterval 1, OnLog ''Stop PlayerStats reporting'', WsClose]"
proof -
  let ?es = "[Report streamer_stats 1, Report player_stats 1, Release 0]"
  let ?t = "exec ?es socket_telemetry"
  have h: "run (Some socket_url) ?es = Inr ?t"
    by (simp add: run_def constructor_def socket_url_def socket_telemetry_def)
  have a: "1 < length (sessions ?t) \<and> release_set (sessions ?t ! 1)"
    by (simp add: eval_defs)
  have n: "reporting ?t = 1"
    by (simp add: eval_defs)
  have e: "stop_effects 1 ?t @ closing_effects ?t =
      [ClearInterval 1, OnLog ''Stop PlayerStats reporting'', WsClose]"
    by (simp add: stop_effects_def closing_effects_def eval_defs)
  from reporting_gates_channel [OF h] a
  have "reporting (release 1 ?t) = reporting ?t - 1 \<and>
        (reporting (release 1 ?t) = 0 \<longrightarrow>
           trace (release 1 ?t) = trace ?t @ stop_effects 1 ?t @ closing_effects ?t)"
    by blast
  with h n e show ?thesis by simp
qed

section \<open>Releasing twice\<close>

lemma report_fields:
  "sessions (report st f t) =
     sessions t @ [\<lparr>s_stats = st, frequency = f, release_set = True, armed = True\<rparr>]"
  "installed (report st f t) = (installed t)(ident st \<mapsto> length (sessions t))"
  "reporting (report st f t) = reporting t + 1"
  "ws (report st f t) = ws t" "fetch (report st f t) = fetch t"
  "requests (report st f t) = requests t" "awaiting (report st f t) = awaiting t"
  "url (report st f t) = url t"
  "trace (report st f t) =
     trace t @ [OnLog (''Start '' @ cname st @ '' reporting every '' @ number_text f @ '' seconds'')]"
  by (simp_all add: report_def Let_def)

lemma release_after_report:
  "reporting (release (length (sessions t)) (report st f t)) = reporting t"
  "sessions (release (length (sessions t)) (report st f t)) =
     sessions t @ [\<lparr>s_stats = st, frequency = f, release_set = False, armed = False\<rparr>]"
  "installed (release (length (sessions t)) (report st f t)) = installed (report st f t)"
  "trace (release (length (sessions t)) (report st f t)) =
     trace (report st f t) @
     [ClearInterval (length (sessions t)), OnLog (''Stop '' @ cname st @ '' reporting'')] @
     (if reporting t > 0 then [] else closing_effects t)"
  by (simp_all add: release_def report_fields Let_def closing_effects_def)

text \<open>
  The session just created, released at once and again: the first call of \<open>stats.onRelease\<close>
  decrements, the further calls leave the state as it is.
\<close>

lemma release_twice_after_report:
  "reporting (step (Release (ident st)) (report st f t)) = reporting (report st f t) - 1 \<and>
   trace (step (Release (ident st)) (report st f t)) =
     trace (report st f t) @
     [ClearInterval (length (sessions t)), OnLog (''Stop '' @ cname st @ '' reporting'')] @
     (if reporting t > 0 then [] else closing_effects t) \<and>
   step (Release (ident st)) (step (Release (ident st)) (report st f t)) =
     step (Release (ident st)) (report st f t) \<and>
   exec (replicate n (Release (ident st))) (step (Release (ident st)) (report st f t)) =
     step (Release (ident st)) (report st f t)"
proof -
  let ?sid = "length (sessions t)"
  let ?t2 = "release ?sid (report st f t)"
  have s: "step (Release (ident st)) (report st f t) = ?t2"
    by (simp add: report_fields)
  have again: "step (Release (ident st)) ?t2 = ?t2"
    by (simp add: release_after_report report_fields release_consumed)
  have many: "exec (replicate n (Release (ident st))) ?t2 = ?t2"
    by (induction n) (simp_all add: again del: step.simps)
  show ?thesis
    unfolding s using again many by (simp add: release_after_report report_fields del: step.simps)
qed


section \<open>One tick\<close>

lemma since_append [simp]: "trace t' = trace t @ es \<Longrightarrow> since t t' = es"
  by (simp add: since_def)

lemma send'_not_ready: "send' (Rejected None) t = (None, t)"
  by (simp add: send'_def)

lemma send'_error: "send' (Rejected (Some e)) t = (Some e, t)"
  by (simp add: send'_def)

lemma send'_socket:
  assumes "ws t = Some w"
  shows "fst (send' (Resolved d) t) = None"
    and "trace (snd (send' (Resolved d) t)) =
           trace t @ (if closed_ws w then [WsOpen (url t)] else []) @ [WsSend (snd (encode d))]"
    and "ws (snd (send' (Resolved d) t)) =
           Some ((if closed_ws w then ws_open w else w)
                   \<lparr>queueing := (if \<not> closed_ws w \<and> opened w then [] else [snd (encode d)])\<rparr>)"
    and "fetch (snd (send' (Resolved d) t)) = fetch t"
    and "requests (snd (send' (Resolved d) t)) = requests t"
  using assms
  by (auto simp: send'_def Let_def ws_send_def ws_open_def split: prod.splits)

lemma send'_http:
  assumes "ws t = None"
  shows "fst (send' (Resolved d) t) = None"
    and "trace (snd (send' (Resolved d) t)) =
           trace t @ (case fetch t of Some c \<Rightarrow> [Abort c] | None \<Rightarrow> []) @
           [Fetch (length (requests t)) (url t) (snd (encode d)) (fst (encode d))]"
    and "ws (snd (send' (Resolved d) t)) = None"
    and "fetch (snd (send' (Resolved d) t)) = Some (length (requests t))"
    and "requests (snd (send' (Resolved d) t)) =
           (case fetch t of Some c \<Rightarrow> requests (abort c t) | None \<Rightarrow> requests t) @
           [\<lparr>r_body = snd (encode d), r_mime = fst (encode d), r_state = Pending\<rparr>]"
  using assms
  by (auto simp: send'_def Let_def split: prod.splits option.splits)

lemma resume_eq:
  "resume sid r t =
     (case fst (send' r t) of
        None \<Rightarrow> snd (send' r t)
      | Some e \<Rightarrow> emit [OnError (cname (s_stats (sessions t ! sid)) @ '' error, '' @ e)] (snd (send' r t)))"
  by (cases "send' r t") (simp add: resume_def split: option.splits)

lemma resume_not_ready: "resume sid (Rejected None) t = t"
  by (simp add: resume_eq send'_not_ready)

lemma resume_trace:
  "\<exists>es. trace (resume sid r t) = trace t @ es \<and> filter is_serialize es = [] \<and>
        ClearInterval k \<notin> set es \<and>
        length (filter is_transmission es) = (case r of Resolved d \<Rightarrow> 1 | Rejected e \<Rightarrow> 0)"
proof (cases r)
  case (Rejected e)
  then show ?thesis
    by (cases e) (simp_all add: resume_eq send'_not_ready send'_error)
next
  case (Resolved d)
  show ?thesis
  proof (cases "ws t")
    case None
    then show ?thesis using Resolved
      by (simp add: resume_eq send'_http split: option.splits)
  next
    case (Some w)
    then show ?thesis using Resolved
      by (simp add: resume_eq send'_socket)
  qed
qed

lemma timer_callback_fields:
  "awaiting (timer_callback sid t) =
     awaiting (if frequency (sessions t ! sid) = 0 \<and> release_set (sessions t ! sid) then release sid t else t) @ [sid]"
  "trace (timer_callback sid t) =
     trace (if frequency (sessions t ! sid) = 0 \<and> release_set (sessions t ! sid) then release sid t else t) @ [Serialize sid]"
  "sessions (timer_callback sid t) =
     sessions (if frequency (sessions t ! sid) = 0 \<and> release_set (sessions t ! sid) then release sid t else t)"
  "reporting (timer_callback sid t) =
     reporting (if frequency (sessions t ! sid) = 0 \<and> release_set (sessions t ! sid) then release sid t else t)"
  "installed (timer_callback sid t) =
     installed (if frequency (sessions t ! sid) = 0 \<and> release_set (sessions t ! sid) then release sid t else t)"
  "ws (timer_callback sid t) =
     ws (if frequency (sessions t ! sid) = 0 \<and> release_set (sessions t ! sid) then release sid t else t)"
  "fetch (timer_callback sid t) =
     fetch (if frequency (sessions t ! sid) = 0 \<and> release_set (sessions t ! sid) then release sid t else t)"
  "requests (timer_callback sid t) =
     requests (if frequency (sessions t ! sid) = 0 \<and> release_set (sessions t ! sid) then release sid t else t)"
  by (simp_all add: timer_callback_def Let_def)

text \<open>
  C3. For every source, \<open>report(stats, 0)\<close> followed by the tick of its timer: \<open>serialize()\<close>
  is called once and at most one transmission follows (exactly one when \<open>serialize()\<close> gives
  data); the session ends stopped, its timer cancelled and its \<open>release\<close> consumed, so that
  neither the timer nor the release signal can do anything more; and once the tick is over
  \<open>reporting\<close> has the value it had before \<open>report\<close> was called.
\<close>

theorem one_shot_report:
  "reporting (exec [Report st 0, Timer (length (sessions t)), Settle (length (sessions t)) r] t) =
     reporting t \<and>
   sessions (exec [Report st 0, Timer (length (sessions t)), Settle (length (sessions t)) r] t) =
     sessions t @ [\<lparr>s_stats = st, frequency = 0, release_set = False, armed = False\<rparr>] \<and>
   filter is_serialize
     (since t (exec [Report st 0, Timer (length (sessions t)), Settle (length (sessions t)) r] t)) =
     [Serialize (length (sessions t))] \<and>
   length (filter is_transmission
     (since t (exec [Report st 0, Timer (length (sessions t)), Settle (length (sessions t)) r] t))) =
     (case r of Resolved d \<Rightarrow> 1 | Rejected e \<Rightarrow> 0) \<and>
   ClearInterval (length (sessions t)) \<in>
     set (since t (exec [Report st 0, Timer (length (sessions t)), Settle (length (sessions t)) r] t)) \<and>
   step (Timer (length (sessions t)))
     (exec [Report st 0, Timer (length (sessions t)), Settle (length (sessions t)) r] t) =
     exec [Report st 0, Timer (length (sessions t)), Settle (length (sessions t)) r] t \<and>
   step (Release (ident st))
     (exec [Report st 0, Timer (length (sessions t)), Settle (length (sessions t)) r] t) =
     exec [Report st 0, Timer (length (sessions t)), Settle (length (sessions t)) r] t"
proof -
  let ?sid = "length (sessions t)"
  let ?t1 = "report st 0 t"
  let ?d = "?t1\<lparr>sessions := (sessions ?t1)[?sid := (sessions ?t1 ! ?sid)\<lparr>armed := False\<rparr>]\<rparr>"
  let ?t2 = "timer_callback ?sid ?d"
  let ?a = "?t2\<lparr>awaiting := remove1 ?sid (awaiting ?t2)\<rparr>"
  let ?t3 = "resume ?sid r ?a"
  have t2: "step (Timer ?sid) ?t1 = ?t2"
    by (simp add: report_fields)
  have d: "sessions ?d = sessions t @ [\<lparr>s_stats = st, frequency = 0, release_set = True, armed = False\<rparr>]"
      "reporting ?d = reporting t + 1" "installed ?d = (installed t)(ident st \<mapsto> ?sid)"
      "trace ?d = trace ?t1"
    by (simp_all add: report_fields)
  have rel: "sessions (release ?sid ?d) =
        sessions t @ [\<lparr>s_stats = st, frequency = 0, release_set = False, armed = False\<rparr>]"
      "reporting (release ?sid ?d) = reporting t"
      "installed (release ?sid ?d) = (installed t)(ident st \<mapsto> ?sid)"
      "trace (release ?sid ?d) = trace ?t1 @ stop_effects ?sid ?d @
          (if reporting t > 0 then [] else closing_effects ?d)"
    using d by (simp_all add: release_def Let_def stop_effects_def closing_effects_def)
  have s2: "sessions ?t2 = sessions t @ [\<lparr>s_stats = st, frequency = 0, release_set = False, armed = False\<rparr>]"
      "reporting ?t2 = reporting t" "installed ?t2 = (installed t)(ident st \<mapsto> ?sid)"
      "trace ?t2 = trace ?t1 @ stop_effects ?sid ?d @
          (if reporting t > 0 then [] else closing_effects ?d) @ [Serialize ?sid]"
      "?sid \<in> set (awaiting ?t2)"
    using d rel by (simp_all add: timer_callback_fields)
  have t3: "step (Settle ?sid r) ?t2 = ?t3"
    using s2(5) by simp
  have e: "exec [Report st 0, Timer ?sid, Settle ?sid r] t = ?t3"
    using t2 t3 by simp
  obtain es where es: "trace ?t3 = trace ?a @ es" "filter is_serialize es = []"
      "length (filter is_transmission es) = (case r of Resolved d \<Rightarrow> 1 | Rejected e \<Rightarrow> 0)"
    using resume_trace [of ?sid r ?a] by blast
  have tr: "trace ?t3 = trace t @
      ([OnLog (''Start '' @ cname st @ '' reporting every '' @ number_text 0 @ '' seconds'')] @
       stop_effects ?sid ?d @ (if reporting t > 0 then [] else closing_effects ?d) @
       [Serialize ?sid] @ es)"
    using es(1) s2(4) by (simp add: report_fields)
  have f: "sessions ?t3 = sessions t @ [\<lparr>s_stats = st, frequency = 0, release_set = False, armed = False\<rparr>]"
      "reporting ?t3 = reporting t" "installed ?t3 = (installed t)(ident st \<mapsto> ?sid)"
    using s2 by simp_all
  have c1: "filter is_serialize (since t ?t3) = [Serialize ?sid]"
    unfolding since_append [OF tr] using es(2)
    by (simp add: stop_effects_def closing_effects_def split: option.splits)
  have c2: "length (filter is_transmission (since t ?t3)) = (case r of Resolved d \<Rightarrow> 1 | Rejected e \<Rightarrow> 0)"
    unfolding since_append [OF tr] using es(3)
    by (simp add: stop_effects_def closing_effects_def split: option.splits)
  have c3: "ClearInterval ?sid \<in> set (since t ?t3)"
    unfolding since_append [OF tr] by (simp add: stop_effects_def)
  have c4: "step (Timer ?sid) ?t3 = ?t3"
    using f(1) by simp
  have c5: "step (Release (ident st)) ?t3 = ?t3"
    using f by (simp add: release_consumed)
  show ?thesis
    unfolding e using f(1,2) c1 c2 c3 c4 c5 by blast
qed

(*PROOFS*)
section \<open>The tick of a one-shot session\<close>

lemma timer_one_shot:
  assumes "sid < length (sessions t)" "armed (sessions t ! sid)"
    "release_set (sessions t ! sid)" "frequency (sessions t ! sid) = 0"
  shows "trace (step (Timer sid) t) =
           trace t @ stop_effects sid t @ (if 1 < reporting t then [] else closing_effects t) @
           [Serialize sid]"
    and "reporting (step (Timer sid) t) = reporting t - 1"
    and "sessions (step (Timer sid) t) =
           (sessions t)[sid := (sessions t ! sid)\<lparr>release_set := False, armed := False\<rparr>]"
    and "awaiting (step (Timer sid) t) = awaiting t @ [sid]"
  using assms
  by (simp_all add: timer_callback_def release_def Let_def stop_effects_def closing_effects_def)

lemma timer_periodic:
  assumes "sid < length (sessions t)" "armed (sessions t ! sid)" "frequency (sessions t ! sid) \<noteq> 0"
  shows "step (Timer sid) t = (emit [Serialize sid] t)\<lparr>awaiting := awaiting t @ [sid]\<rparr>"
  using assms by (simp add: timer_callback_def Let_def)

text \<open>
  C4, as the code has it. For a session of frequency 0 whose timer fires: the release comes
  first, in the same callback and before \<open>serialize()\<close> is called: the timer is cancelled,
  the stop is logged, the counter is decremented and, if it reaches 0, the channel is closed;
  only then is \<open>serialize()\<close> called, and whatever the continuation of \<open>_send\<close> does later
  contains no release.
\<close>

theorem one_shot_releases_first:
  assumes "sid < length (sessions t)" "armed (sessions t ! sid)"
    "release_set (sessions t ! sid)" "frequency (sessions t ! sid) = 0"
  shows "trace (step (Timer sid) t) =
           trace t @ stop_effects sid t @ (if 1 < reporting t then [] else closing_effects t) @
           [Serialize sid] \<and>
         reporting (step (Timer sid) t) = reporting t - 1 \<and>
         \<not> release_set (sessions (step (Timer sid) t) ! sid) \<and>
         occurs_before (ClearInterval sid) (Serialize sid) (since t (step (Timer sid) t)) \<and>
         \<not> occurs_before (Serialize sid) (ClearInterval sid) (since t (step (Timer sid) t)) \<and>
         (\<forall>r. \<exists>es. trace (step (Settle sid r) (step (Timer sid) t)) = trace (step (Timer sid) t) @ es \<and>
                    ClearInterval sid \<notin> set es)"
proof -
  let ?t2 = "step (Timer sid) t"
  note f = timer_one_shot [OF assms]
  have s: "since t ?t2 =
      stop_effects sid t @ (if 1 < reporting t then [] else closing_effects t) @ [Serialize sid]"
    using f(1) by simp
  have o1: "occurs_before (ClearInterval sid) (Serialize sid) (since t ?t2)"
    unfolding s by (simp add: occurs_before_def stop_effects_def)
  have o2: "\<not> occurs_before (Serialize sid) (ClearInterval sid) (since t ?t2)"
    unfolding s by (simp add: occurs_before_def stop_effects_def)
  have r: "\<not> release_set (sessions ?t2 ! sid)"
    using assms(1) by (simp add: f(3) del: step.simps)
  have c: "\<exists>es. trace (step (Settle sid r) ?t2) = trace ?t2 @ es \<and> ClearInterval sid \<notin> set es" for r
  proof -
    have "sid \<in> set (awaiting ?t2)" by (simp add: f(4) del: step.simps)
    then have e: "step (Settle sid r) ?t2 = resume sid r (?t2\<lparr>awaiting := remove1 sid (awaiting ?t2)\<rparr>)"
      by (simp del: step.simps(5))
    show ?thesis
      using resume_trace [of sid r "?t2\<lparr>awaiting := remove1 sid (awaiting ?t2)\<rparr>" sid]
      unfolding e by auto
  qed
  show ?thesis using f(1,2) r o1 o2 c by blast
qed

theorem one_shot_releases_first_witness:
  "trace (step (Timer 0) (exec [Report streamer_stats 0] socket_telemetry)) =
     trace (exec [Report streamer_stats 0] socket_telemetry) @
     [ClearInterval 0, OnLog ''Stop StreamerStats reporting'', WsClose, Serialize 0] \<and>
   reporting (step (Timer 0) (exec [Report streamer_stats 0] socket_telemetry)) = 0"
proof -
  let ?t = "exec [Report streamer_stats 0] socket_telemetry"
  have a: "0 < length (sessions ?t)" "armed (sessions ?t ! 0)"
      "release_set (sessions ?t ! 0)" "frequency (sessions ?t ! 0) = 0"
    by (simp_all add: eval_defs)
  have b: "reporting ?t = 1"
      "stop_effects 0 ?t @ closing_effects ?t =
        [ClearInterval 0, OnLog ''Stop StreamerStats reporting'', WsClose]"
    by (simp_all add: stop_effects_def closing_effects_def eval_defs)
  show ?thesis
    using one_shot_releases_first [OF a] b by (simp del: step.simps exec.simps)
qed

text \<open>
  C4, as the claim states it, says that within the tick the release comes after the
  serialize and send attempt. On a fresh socket Telemetry with one session of frequency 0 the
  tick cancels the timer, logs the stop and closes the websocket before \<open>serialize()\<close> is
  called, and the send follows.
\<close>

theorem release_after_attempt_counterexample:
  "trace (exec [Report streamer_stats 0, Timer 0, Settle 0 (Resolved (String ''x''))] socket_telemetry) =
     [OnLog ''Start StreamerStats reporting every 0 seconds'',
      ClearInterval 0, OnLog ''Stop StreamerStats reporting'', WsClose,
      Serialize 0, WsOpen ''wss://address/metrics'', WsSend (StringBody ''x'')] \<and>
   \<not> occurs_before (Serialize 0) (ClearInterval 0)
       (trace (exec [Report streamer_stats 0, Timer 0, Settle 0 (Resolved (String ''x''))] socket_telemetry)) \<and>
   \<not> occurs_before (WsSend (StringBody ''x'')) (ClearInterval 0)
       (trace (exec [Report streamer_stats 0, Timer 0, Settle 0 (Resolved (String ''x''))] socket_telemetry))"
proof -
  have n: "number_text 0 = ''0''"
    by (simp add: number_text_def digits.simps)
  have t: "trace (exec [Report streamer_stats 0, Timer 0, Settle 0 (Resolved (String ''x''))] socket_telemetry) =
     [OnLog ''Start StreamerStats reporting every 0 seconds'',
      ClearInterval 0, OnLog ''Stop StreamerStats reporting'', WsClose,
      Serialize 0, WsOpen ''wss://address/metrics'', WsSend (StringBody ''x'')]"
    by (simp add: eval_defs n)
  show ?thesis unfolding t by (simp add: occurs_before_def)
qed

section \<open>A source that is not ready\<close>

lemma settle_not_ready:
  "sid \<in> set (awaiting t) \<Longrightarrow>
   step (Settle sid (Rejected None)) t = t\<lparr>awaiting := remove1 sid (awaiting t)\<rparr>"
  by (simp add: resume_not_ready)

text \<open>
  C6, as the code has it. For every tick of every session, if \<open>serialize()\<close> signals that the
  source is not ready, the tick performs no transmission and logs no error, and the not-ready
  outcome itself changes nothing. The sessions and the counter are as they were before the tick
  when the frequency of the session is not 0; the tick of a session of frequency 0 has released
  the session before it called \<open>serialize()\<close>.
\<close>

theorem not_ready_is_silent:
  assumes "sid < length (sessions t)" "armed (sessions t ! sid)"
  shows "filter is_transmission (since t (exec [Timer sid, Settle sid (Rejected None)] t)) = [] \<and>
         filter is_error_log (since t (exec [Timer sid, Settle sid (Rejected None)] t)) = [] \<and>
         trace (exec [Timer sid, Settle sid (Rejected None)] t) = trace (step (Timer sid) t) \<and>
         sessions (exec [Timer sid, Settle sid (Rejected None)] t) = sessions (step (Timer sid) t) \<and>
         reporting (exec [Timer sid, Settle sid (Rejected None)] t) = reporting (step (Timer sid) t) \<and>
         ws (exec [Timer sid, Settle sid (Rejected None)] t) = ws (step (Timer sid) t) \<and>
         fetch (exec [Timer sid, Settle sid (Rejected None)] t) = fetch (step (Timer sid) t) \<and>
         requests (exec [Timer sid, Settle sid (Rejected None)] t) = requests (step (Timer sid) t) \<and>
         (frequency (sessions t ! sid) \<noteq> 0 \<longrightarrow>
            sessions (exec [Timer sid, Settle sid (Rejected None)] t) = sessions t \<and>
            reporting (exec [Timer sid, Settle sid (Rejected None)] t) = reporting t \<and>
            ws (exec [Timer sid, Settle sid (Rejected None)] t) = ws t \<and>
            fetch (exec [Timer sid, Settle sid (Rejected None)] t) = fetch t \<and>
            requests (exec [Timer sid, Settle sid (Rejected None)] t) = requests t \<and>
            trace (exec [Timer sid, Settle sid (Rejected None)] t) = trace t @ [Serialize sid])"
proof -
  let ?t1 = "step (Timer sid) t"
  let ?t2 = "exec [Timer sid, Settle sid (Rejected None)] t"
  have aw: "sid \<in> set (awaiting ?t1)"
    using assms by (simp add: timer_callback_fields)
  have e: "?t2 = ?t1\<lparr>awaiting := remove1 sid (awaiting ?t1)\<rparr>"
    using settle_not_ready [OF aw] by (simp del: step.simps)
  have same: "trace ?t2 = trace ?t1" "sessions ?t2 = sessions ?t1" "reporting ?t2 = reporting ?t1"
      "ws ?t2 = ws ?t1" "fetch ?t2 = fetch ?t1" "requests ?t2 = requests ?t1"
    unfolding e by simp_all
  have tr: "\<exists>es. trace ?t1 = trace t @ es \<and> filter is_transmission es = [] \<and> filter is_error_log es = []"
  proof (cases "frequency (sessions t ! sid) = 0 \<and> release_set (sessions t ! sid)")
    case True
    then show ?thesis
      using timer_one_shot(1) [OF assms]
      by (simp add: stop_effects_def closing_effects_def split: option.splits del: step.simps)
  next
    case False
    then show ?thesis using assms
      by (auto simp: timer_callback_fields)
  qed
  then obtain es where es: "trace ?t1 = trace t @ es" "filter is_transmission es = []"
      "filter is_error_log es = []"
    by blast
  have s: "since t ?t2 = es"
    using es(1) same(1) by (simp del: step.simps exec.simps)
  have p: "frequency (sessions t ! sid) \<noteq> 0 \<Longrightarrow>
      sessions ?t1 = sessions t \<and> reporting ?t1 = reporting t \<and> ws ?t1 = ws t \<and>
      fetch ?t1 = fetch t \<and> requests ?t1 = requests t \<and> trace ?t1 = trace t @ [Serialize sid]"
    using timer_periodic [OF assms] by (simp del: step.simps)
  show ?thesis
    unfolding s using es(2,3) same p by (simp del: step.simps exec.simps)
qed

theorem not_ready_is_silent_witness:
  "trace (exec [Timer 0, Settle 0 (Rejected None)] (exec [Report streamer_stats 1] http_telemetry)) =
     trace (exec [Report streamer_stats 1] http_telemetry) @ [Serialize 0] \<and>
   reporting (exec [Timer 0, Settle 0 (Rejected None)] (exec [Report streamer_stats 1] http_telemetry)) = 1 \<and>
   filter is_transmission (since (exec [Report streamer_stats 1] http_telemetry)
     (exec [Timer 0, Settle 0 (Rejected None)] (exec [Report streamer_stats 1] http_telemetry))) = []"
proof -
  let ?t = "exec [Report streamer_stats 1] http_telemetry"
  have a: "0 < length (sessions ?t)" "armed (sessions ?t ! 0)"
    by (simp_all add: eval_defs)
  have b: "frequency (sessions ?t ! 0) \<noteq> 0" "reporting ?t = 1"
    by (simp_all add: eval_defs)
  from not_ready_is_silent [OF a] b(1)
  have "trace (exec [Timer 0, Settle 0 (Rejected None)] ?t) = trace ?t @ [Serialize 0] \<and>
        reporting (exec [Timer 0, Settle 0 (Rejected None)] ?t) = reporting ?t \<and>
        filter is_transmission (since ?t (exec [Timer 0, Settle 0 (Rejected None)] ?t)) = []"
    by blast
  with b(2) show ?thesis by (simp del: step.simps exec.simps)
qed

text \<open>
  C6, as the claim states it, says that the tick leaves the session and the counter unchanged.
  The tick of a session of frequency 0 whose source is not ready takes the counter from 1 to 0
  and consumes the release of the session.
\<close>

theorem not_ready_unchanged_counterexample:
  "reporting (exec [Report streamer_stats 0] http_telemetry) = 1 \<and>
   reporting (exec [Timer 0, Settle 0 (Rejected None)] (exec [Report streamer_stats 0] http_telemetry)) = 0 \<and>
   sessions (exec [Timer 0, Settle 0 (Rejected None)] (exec [Report streamer_stats 0] http_telemetry)) \<noteq>
     sessions (exec [Report streamer_stats 0] http_telemetry)"
  by (simp add: eval_defs)

section \<open>Sending on the websocket\<close>

text \<open>
  C9. On a Telemetry with a websocket, every \<open>_send\<close> that has data: if the socket is
  closed it is opened before \<open>send\<close> is called; the socket is not closed afterwards; and
  whatever the queue held before, after the \<open>_send\<close> it holds nothing but the new payload (it
  is empty when the socket was connected and transmitted the payload at once).
\<close>

theorem socket_send_freshest:
  assumes "ws t = Some w"
  shows "fst (send' (Resolved d) t) = None \<and>
         trace (snd (send' (Resolved d) t)) =
           trace t @ (if closed_ws w then [WsOpen (url t)] else []) @ [WsSend (snd (encode d))] \<and>
         (\<exists>w'. ws (snd (send' (Resolved d) t)) = Some w' \<and> \<not> closed_ws w' \<and>
               (queueing w' = [] \<or> queueing w' = [snd (encode d)]) \<and>
               (closed_ws w \<longrightarrow> queueing w' = [snd (encode d)]))"
  using send'_socket [OF assms, of d] by (simp add: ws_open_def)

theorem socket_send_freshest_witness:
  "ws (exec [Report streamer_stats 1, Timer 0, Settle 0 (Resolved (String ''a'')), Timer 0] socket_telemetry) =
     Some \<lparr>closed_ws = False, opened = False, queueing = [StringBody ''a'']\<rparr> \<and>
   ws (snd (send' (Resolved (String ''b''))
     (exec [Report streamer_stats 1, Timer 0, Settle 0 (Resolved (String ''a'')), Timer 0] socket_telemetry))) =
     Some \<lparr>closed_ws = False, opened = False, queueing = [StringBody ''b'']\<rparr> \<and>
   since (exec [Report streamer_stats 1, Timer 0, Settle 0 (Resolved (String ''a'')), Timer 0] socket_telemetry)
     (snd (send' (Resolved (String ''b''))
       (exec [Report streamer_stats 1, Timer 0, Settle 0 (Resolved (String ''a'')), Timer 0] socket_telemetry))) =
     [WsSend (StringBody ''b'')]"
proof -
  let ?t = "exec [Report streamer_stats 1, Timer 0, Settle 0 (Resolved (String ''a'')), Timer 0] socket_telemetry"
  have a: "ws ?t = Some \<lparr>closed_ws = False, opened = False, queueing = [StringBody ''a'']\<rparr>"
    by (simp add: eval_defs)
  have b: "ws (snd (send' (Resolved (String ''b'')) ?t)) =
      Some \<lparr>closed_ws = False, opened = False, queueing = [StringBody ''b'']\<rparr>"
    using send'_socket(3) [OF a, of "String ''b''"] by (simp add: encode_def del: exec.simps)
  have "trace (snd (send' (Resolved (String ''b'')) ?t)) = trace ?t @ [WsSend (StringBody ''b'')]"
    using socket_send_freshest [OF a, of "String ''b''"] by (simp add: encode_def del: exec.simps)
  then show ?thesis using a b by (simp only: since_append simp_thms)
qed

section \<open>Sending over HTTP\<close>

lemma cancelled_abort: "cancelled c t \<Longrightarrow> cancelled c (abort k t)"
  by (auto simp: cancelled_def abort_def emit_def abort_request_def nth_list_update)

lemma cancelled_cong: "requests t' = requests t \<Longrightarrow> cancelled c t \<Longrightarrow> cancelled c t'"
  by (simp add: cancelled_def)

lemma cancelled_close_connection: "cancelled c t \<Longrightarrow> cancelled c (close_connection t)"
proof -
  assume c: "cancelled c t"
  let ?t1 = "case ws t of Some w \<Rightarrow> emit [WsClose] (t\<lparr>ws := Some (ws_close w)\<rparr>) | None \<Rightarrow> t"
  have "requests ?t1 = requests t" by (simp split: option.splits)
  then have "cancelled c ?t1" using c by (rule cancelled_cong)
  then show ?thesis
    by (simp add: close_connection_def Let_def cancelled_abort split: option.splits)
qed

lemma cancelled_release: "cancelled c t \<Longrightarrow> cancelled c (release sid t)"
proof (cases "sid < length (sessions t) \<and> release_set (sessions t ! sid)")
  case False
  assume "cancelled c t"
  with False show ?thesis by (simp add: release_consumed)
next
  case True
  assume c: "cancelled c t"
  define x where "x =
    (emit [ClearInterval sid, OnLog (''Stop '' @ cname (s_stats (sessions t ! sid)) @ '' reporting'')]
       (t\<lparr>sessions := (sessions t)[sid := (sessions t ! sid)\<lparr>release_set := False, armed := False\<rparr>]\<rparr>))
    \<lparr>reporting := reporting t - 1\<rparr>"
  have r: "release sid t = (if reporting t - 1 > 0 then x else close_connection x)"
    using True by (simp add: release_def Let_def x_def)
  have "requests x = requests t" by (simp add: x_def)
  then have "cancelled c x" using c by (rule cancelled_cong)
  then show ?thesis unfolding r by (simp add: cancelled_close_connection)
qed

lemma cancelled_send': "cancelled c t \<Longrightarrow> cancelled c (snd (send' r t))"
proof (cases r)
  case (Rejected e)
  assume "cancelled c t"
  then show ?thesis using Rejected by (cases e) (simp_all add: send'_not_ready send'_error)
next
  case (Resolved d)
  assume c: "cancelled c t"
  show ?thesis
  proof (cases "ws t")
    case (Some w)
    then show ?thesis using c Resolved by (simp add: cancelled_def send'_socket)
  next
    case None
    show ?thesis
    proof (cases "fetch t")
      case N: None
      then show ?thesis using c None Resolved
        by (simp add: cancelled_def send'_http nth_append)
    next
      case (Some k)
      have "cancelled c (abort k t)" using c by (rule cancelled_abort)
      then show ?thesis using None Some Resolved
        by (simp add: cancelled_def send'_http nth_append)
    qed
  qed
qed

lemma cancelled_resume: "cancelled c t \<Longrightarrow> cancelled c (resume sid r t)"
  using cancelled_send' [of c t r]
  by (simp add: resume_eq cancelled_def split: option.splits)

lemma cancelled_timer_callback: "cancelled c t \<Longrightarrow> cancelled c (timer_callback sid t)"
  using cancelled_release [of c t sid]
  by (simp add: cancelled_def timer_callback_fields)

lemma cancelled_step: "cancelled c t \<Longrightarrow> cancelled c (step e t)"
proof (cases e)
  case (Report st f)
  assume "cancelled c t" then show ?thesis using Report by (simp add: cancelled_def report_fields)
next
  case (Release i)
  assume "cancelled c t" then show ?thesis using Release
    by (simp add: cancelled_release split: option.splits)
next
  case (Timer sid)
  assume c: "cancelled c t"
  have "cancelled c (t\<lparr>sessions := (sessions t)[sid := (sessions t ! sid)\<lparr>armed := False\<rparr>]\<rparr>)"
    using c by (simp add: cancelled_def)
  then show ?thesis using c Timer by (simp add: cancelled_timer_callback)
next
  case (Settle sid r)
  assume c: "cancelled c t"
  have "cancelled c (t\<lparr>awaiting := remove1 sid (awaiting t)\<rparr>)"
    using c by (simp add: cancelled_def)
  then show ?thesis using c Settle by (simp add: cancelled_resume)
next
  case (StatsError i m)
  assume "cancelled c t" then show ?thesis using StatsError
    by (simp add: cancelled_def split: option.splits)
next
  case (StatsLog i m)
  assume "cancelled c t" then show ?thesis using StatsLog
    by (simp add: cancelled_def split: option.splits)
next
  case WsOnOpen
  assume "cancelled c t" then show ?thesis using WsOnOpen
    by (simp add: cancelled_def split: option.splits)
next
  case WsOnClose
  assume "cancelled c t" then show ?thesis using WsOnClose
    by (simp add: cancelled_def split: option.splits)
next
  case (FetchSettle k ok)
  assume "cancelled c t" then show ?thesis using FetchSettle
    by (auto simp: cancelled_def nth_list_update)
qed

lemma cancelled_exec: "cancelled c t \<Longrightarrow> cancelled c (exec es t)"
  by (induction es arbitrary: t) (simp_all add: cancelled_step del: step.simps)

text \<open>
  C8. On a Telemetry without a websocket, a \<open>_send\<close> that starts while the request of the
  previous \<open>_send\<close> is still pending aborts that request through its controller, then issues
  its own POST; the aborted request stays aborted whatever happens afterwards, so of the two
  only the later payload can be delivered.
\<close>

theorem http_latest_wins:
  assumes "ws t = None" "fetch t = Some c" "c < length (requests t)"
    "r_state (requests t ! c) = Pending"
  shows "fst (send' (Resolved d) t) = None \<and>
         trace (snd (send' (Resolved d) t)) =
           trace t @ [Abort c, Fetch (length (requests t)) (url t) (snd (encode d)) (fst (encode d))] \<and>
         r_state (requests (snd (send' (Resolved d) t)) ! c) = Aborted \<and>
         fetch (snd (send' (Resolved d) t)) = Some (length (requests t)) \<and>
         requests (snd (send' (Resolved d) t)) ! length (requests t) =
           \<lparr>r_body = snd (encode d), r_mime = fst (encode d), r_state = Pending\<rparr> \<and>
         (\<forall>es. r_state (requests (exec es (snd (send' (Resolved d) t))) ! c) = Aborted)"
proof -
  let ?t' = "snd (send' (Resolved d) t)"
  note f = send'_http [OF assms(1), of d]
  have ab: "requests (abort c t) = (requests t)[c := (requests t ! c)\<lparr>r_state := Aborted\<rparr>]"
    using assms(3,4) by (simp add: abort_def abort_request_def)
  have rq: "requests ?t' = (requests t)[c := (requests t ! c)\<lparr>r_state := Aborted\<rparr>] @
      [\<lparr>r_body = snd (encode d), r_mime = fst (encode d), r_state = Pending\<rparr>]"
    using f(5) assms(2) ab by simp
  have c: "cancelled c ?t'"
    unfolding cancelled_def rq using assms(3) by (simp add: nth_append)
  have st: "r_state (requests (exec es ?t') ! c) = Aborted" for es
    using cancelled_exec [OF c, of es] by (simp add: cancelled_def)
  have n: "requests ?t' ! length (requests t) =
      \<lparr>r_body = snd (encode d), r_mime = fst (encode d), r_state = Pending\<rparr>"
    unfolding rq by (simp add: nth_append)
  have tr: "trace ?t' = trace t @ [Abort c, Fetch (length (requests t)) (url t) (snd (encode d)) (fst (encode d))]"
    using f(2) assms(2) by simp
  show ?thesis
    using f(1,4) tr c n st by (simp add: cancelled_def)
qed

theorem http_latest_wins_witness:
  "requests (exec [Report streamer_stats 1, Timer 0, Timer 0, Settle 0 (Resolved (String ''first''))] http_telemetry) =
     [\<lparr>r_body = StringBody ''first'', r_mime = ''text/plain'', r_state = Pending\<rparr>] \<and>
   r_state (requests (snd (send' (Resolved (String ''second''))
     (exec [Report streamer_stats 1, Timer 0, Timer 0, Settle 0 (Resolved (String ''first''))] http_telemetry))) ! 0) =
     Aborted \<and>
   requests (snd (send' (Resolved (String ''second''))
     (exec [Report streamer_stats 1, Timer 0, Timer 0, Settle 0 (Resolved (String ''first''))] http_telemetry))) ! 1 =
     \<lparr>r_body = StringBody ''second'', r_mime = ''text/plain'', r_state = Pending\<rparr>"
proof -
  let ?t = "exec [Report streamer_stats 1, Timer 0, Timer 0, Settle 0 (Resolved (String ''first''))] http_telemetry"
  have r: "requests ?t = [\<lparr>r_body = StringBody ''first'', r_mime = ''text/plain'', r_state = Pending\<rparr>]"
    by (simp add: eval_defs)
  have a: "ws ?t = None" "fetch ?t = Some 0"
    by (simp_all add: eval_defs)
  have b: "0 < length (requests ?t)" "r_state (requests ?t ! 0) = Pending"
    by (simp_all add: r del: exec.simps)
  have l: "length (requests ?t) = 1" by (simp add: r del: exec.simps)
  show ?thesis
    using http_latest_wins [OF a b, of "String ''second''"] r
    unfolding l by (simp add: encode_def del: exec.simps)
qed

(*PROOFS*)
section \<open>A one-shot report on a websocket\<close>



section \<open>A request that fails\<close>

lemma fetch_settle_trace: "trace (step (FetchSettle c ok) t) = trace t"
  by simp

text \<open>
  C7 at a failing input. An HTTP Telemetry reports a source every second; the first tick
  posts its payload and the request fails; the second tick posts again while the request of the
  first is pending, which aborts it. Neither the failed nor the aborted request adds a call of
  \<open>onError\<close>: the trace holds the start log, the two calls of \<open>serialize()\<close>, the requests and the
  abort, and nothing else.
\<close>

theorem http_failure_not_logged:
  "requests (exec [Report streamer_stats 1, Timer 0, Settle 0 (Resolved (String ''x'')), FetchSettle 0 False,
                   Timer 0, Settle 0 (Resolved (String ''y'')), Timer 0, Settle 0 (Resolved (String ''z''))]
              http_telemetry) =
     [\<lparr>r_body = StringBody ''x'', r_mime = ''text/plain'', r_state = Failed\<rparr>,
      \<lparr>r_body = StringBody ''y'', r_mime = ''text/plain'', r_state = Aborted\<rparr>,
      \<lparr>r_body = StringBody ''z'', r_mime = ''text/plain'', r_state = Pending\<rparr>] \<and>
   trace (exec [Report streamer_stats 1, Timer 0, Settle 0 (Resolved (String ''x'')), FetchSettle 0 False,
                   Timer 0, Settle 0 (Resolved (String ''y'')), Timer 0, Settle 0 (Resolved (String ''z''))]
              http_telemetry) =
     [OnLog ''Start StreamerStats reporting every 1 seconds'',
      Serialize 0,
      Fetch 0 ''https://address/metrics'' (StringBody ''x'') ''text/plain'',
      Serialize 0,
      Abort 0,
      Fetch 1 ''https://address/metrics'' (StringBody ''y'') ''text/plain'',
      Serialize 0,
      Abort 1,
      Fetch 2 ''https://address/metrics'' (StringBody ''z'') ''text/plain''] \<and>
   filter is_error_log
     (trace (exec [Report streamer_stats 1, Timer 0, Settle 0 (Resolved (String ''x'')), FetchSettle 0 False,
                   Timer 0, Settle 0 (Resolved (String ''y'')), Timer 0, Settle 0 (Resolved (String ''z''))]
              http_telemetry)) = []"
proof -
  have n: "number_text 1 = ''1''"
    by (simp add: number_text_def digits.simps)
  show ?thesis
    by (simp add: eval_defs n)
qed

section \<open>Releasing again, after any events\<close>

lemma released_release:
  assumes "sid < length (sessions t)" "\<not> release_set (sessions t ! sid)"
  shows "sid < length (sessions (release k t)) \<and> \<not> release_set (sessions (release k t) ! sid)"
proof (cases "k < length (sessions t) \<and> release_set (sessions t ! k)")
  case False
  then show ?thesis using assms by (simp add: release_consumed)
next
  case True
  then show ?thesis using assms
    by (simp add: release_fields nth_list_update)
qed

lemma released_timer_callback:
  assumes "sid < length (sessions t)" "\<not> release_set (sessions t ! sid)"
  shows "sid < length (sessions (timer_callback k t)) \<and>
         \<not> release_set (sessions (timer_callback k t) ! sid)"
  using assms released_release [OF assms, of k] by (simp add: timer_callback_fields)

lemma released_step:
  assumes "sid < length (sessions t)" "\<not> release_set (sessions t ! sid)"
  shows "sid < length (sessions (step e t)) \<and> \<not> release_set (sessions (step e t) ! sid)"
proof (cases e)
  case (Report st f)
  then show ?thesis using assms by (simp add: report_fields nth_append)
next
  case (Release i)
  then show ?thesis using assms released_release [OF assms]
    by (simp split: option.splits)
next
  case (Timer k)
  let ?d = "t\<lparr>sessions := (sessions t)[k := (sessions t ! k)\<lparr>armed := False\<rparr>]\<rparr>"
  have d: "sid < length (sessions ?d)" "\<not> release_set (sessions ?d ! sid)"
    using assms by (cases "k < length (sessions t)"; simp add: nth_list_update)+
  have "step e t = t \<or> step e t = timer_callback k t \<or> step e t = timer_callback k ?d"
    using Timer by simp
  then show ?thesis
    using assms released_timer_callback [OF assms, of k] released_timer_callback [OF d, of k]
    by auto
next
  case (Settle k r)
  then show ?thesis using assms by simp
next
  case (StatsError i m)
  then show ?thesis using assms by (simp split: option.splits)
next
  case (StatsLog i m)
  then show ?thesis using assms by (simp split: option.splits)
next
  case WsOnOpen
  then show ?thesis using assms by (simp split: option.splits)
next
  case WsOnClose
  then show ?thesis using assms by (simp split: option.splits)
next
  case (FetchSettle c ok)
  then show ?thesis using assms by simp
qed

lemma released_exec:
  "sid < length (sessions t) \<Longrightarrow> \<not> release_set (sessions t ! sid) \<Longrightarrow>
   sid < length (sessions (exec es t)) \<and> \<not> release_set (sessions (exec es t) ! sid)"
proof (induction es arbitrary: t)
  case Nil
  then show ?case by simp
next
  case (Cons e es)
  have "sid < length (sessions (step e t)) \<and> \<not> release_set (sessions (step e t) ! sid)"
    using Cons.prems by (rule released_step)
  then show ?case using Cons.IH [of "step e t"] by simp
qed

lemma installed_release: "installed (release k t) = installed t"
  by (cases "k < length (sessions t) \<and> release_set (sessions t ! k)")
    (simp_all add: release_fields release_consumed)

lemma installed_step: "\<not> is_report_of i e \<Longrightarrow> installed (step e t) i = installed t i"
proof (cases e)
  case (Report st f)
  assume "\<not> is_report_of i e"
  then show ?thesis using Report by (simp add: report_fields)
next
  case (Release j)
  then show ?thesis by (simp add: installed_release split: option.splits)
next
  case (Timer k)
  then show ?thesis by (simp add: timer_callback_fields installed_release)
next
  case (Settle k r)
  then show ?thesis by simp
next
  case (StatsError j m)
  then show ?thesis by (simp split: option.splits)
next
  case (StatsLog j m)
  then show ?thesis by (simp split: option.splits)
next
  case WsOnOpen
  then show ?thesis by (simp split: option.splits)
next
  case WsOnClose
  then show ?thesis by (simp split: option.splits)
next
  case (FetchSettle c ok)
  then show ?thesis by simp
qed

lemma installed_exec:
  "\<not> list_ex (is_report_of i) es \<Longrightarrow> installed (exec es t) i = installed t i"
proof (induction es arbitrary: t)
  case Nil
  then show ?case by simp
next
  case (Cons e es)
  then have "installed (exec es (step e t)) i = installed (step e t) i" by simp
  also have "\<dots> = installed t i" using Cons.prems by (simp add: installed_step del: step.simps)
  finally show ?case by simp
qed

text \<open>
  C2. For every session started by \<open>report(stats, frequency)\<close>, in any state in which it is
  still active and \<open>stats.onRelease\<close> holds its closure: the first call of the release signal
  decrements \<open>reporting\<close> by exactly one, cancels the timer once and checks once whether the
  channel is to be closed. Every call after the first, whatever events have happened in
  between, leaves the whole state as it is: the closure of the session does nothing more, and
  so does the release signal of the source as long as no new \<open>report\<close> of that source has
  replaced it; there is no second decrement and no second close.
\<close>

theorem release_signal_idempotent:
  assumes "installed t i = Some sid" "sid < length (sessions t)" "release_set (sessions t ! sid)"
  shows "step (Release i) t = release sid t \<and>
         reporting (step (Release i) t) = reporting t - 1 \<and>
         trace (step (Release i) t) =
           trace t @ stop_effects sid t @ (if 1 < reporting t then [] else closing_effects t) \<and>
         (\<forall>es. release sid (exec es (step (Release i) t)) = exec es (step (Release i) t)) \<and>
         (\<forall>es. installed (exec es (step (Release i) t)) i = Some sid \<longrightarrow>
               step (Release i) (exec es (step (Release i) t)) = exec es (step (Release i) t)) \<and>
         (\<forall>es. \<not> list_ex (is_report_of i) es \<longrightarrow>
               step (Release i) (exec es (step (Release i) t)) = exec es (step (Release i) t)) \<and>
         (\<forall>es n. \<not> list_ex (is_report_of i) es \<longrightarrow>
               exec (replicate n (Release i)) (exec es (step (Release i) t)) =
               exec es (step (Release i) t))"
proof -
  let ?t1 = "step (Release i) t"
  have s: "?t1 = release sid t" using assms(1) by simp
  have rep: "reporting ?t1 = reporting t - 1"
    unfolding s using assms(2,3) by (simp add: release_fields)
  have tr: "trace ?t1 = trace t @ stop_effects sid t @ (if 1 < reporting t then [] else closing_effects t)"
  proof (cases "1 < reporting t")
    case True
    then show ?thesis unfolding s using release_open(1) [OF assms(2,3)] by simp
  next
    case False
    then show ?thesis unfolding s using release_close(1) [OF assms(2,3)] by simp
  qed
  have r1: "sid < length (sessions ?t1)" "\<not> release_set (sessions ?t1 ! sid)"
    unfolding s using assms(2,3) by (simp_all add: release_fields)
  have i1: "installed ?t1 i = Some sid"
    unfolding s using assms(1) by (simp add: installed_release)
  have closure: "release sid (exec es ?t1) = exec es ?t1" for es
    using released_exec [OF r1, of es] by (simp add: release_consumed del: step.simps)
  have signal: "step (Release i) (exec es ?t1) = exec es ?t1"
    if "installed (exec es ?t1) i = Some sid" for es
    using that closure [of es] by (simp del: step.simps(5) exec.simps)
  have quiet: "step (Release i) (exec es ?t1) = exec es ?t1"
    if "\<not> list_ex (is_report_of i) es" for es
    using signal [of es] installed_exec [OF that, of ?t1] i1 by (simp del: step.simps exec.simps)
  have many: "exec (replicate n (Release i)) (exec es ?t1) = exec es ?t1"
    if "\<not> list_ex (is_report_of i) es" for es n
    by (induction n) (simp_all add: quiet [OF that] del: step.simps)
  show ?thesis
    using s rep tr closure signal quiet many by blast
qed

theorem release_signal_idempotent_witness:
  "installed (exec [Report streamer_stats 1, Timer 0] socket_telemetry) 0 = Some 0 \<and>
   reporting (exec [Report streamer_stats 1, Timer 0] socket_telemetry) = 1 \<and>
   reporting (step (Release 0) (exec [Report streamer_stats 1, Timer 0] socket_telemetry)) = 0 \<and>
   step (Release 0)
     (exec [Settle 0 (Resolved (String ''x''))]
        (step (Release 0) (exec [Report streamer_stats 1, Timer 0] socket_telemetry))) =
     exec [Settle 0 (Resolved (String ''x''))]
       (step (Release 0) (exec [Report streamer_stats 1, Timer 0] socket_telemetry)) \<and>
   since socket_telemetry
     (step (Release 0)
       (exec [Settle 0 (Resolved (String ''x''))]
          (step (Release 0) (exec [Report streamer_stats 1, Timer 0] socket_telemetry)))) =
     [OnLog ''Start StreamerStats reporting every 1 seconds'', Serialize 0,
      ClearInterval 0, OnLog ''Stop StreamerStats reporting'', WsClose,
      WsOpen ''wss://address/metrics'', WsSend (StringBody ''x'')]"
proof -
  let ?t = "exec [Report streamer_stats 1, Timer 0] socket_telemetry"
  let ?es = "[Settle 0 (Resolved (String ''x''))]"
  have a: "installed ?t 0 = Some 0" "0 < length (sessions ?t)" "release_set (sessions ?t ! 0)"
    by (simp_all add: eval_defs)
  have n: "reporting ?t = 1" by (simp add: eval_defs)
  have q: "\<not> list_ex (is_report_of 0) ?es" by simp
  from release_signal_idempotent [OF a] q
  have again: "step (Release 0) (exec ?es (step (Release 0) ?t)) = exec ?es (step (Release 0) ?t)"
    by blast
  from release_signal_idempotent [OF a]
  have dec: "reporting (step (Release 0) ?t) = reporting ?t - 1"
    by blast
  have nt: "number_text 1 = ''1''"
    by (simp add: number_text_def digits.simps)
  have tr: "since socket_telemetry (exec ?es (step (Release 0) ?t)) =
     [OnLog ''Start StreamerStats reporting every 1 seconds'', Serialize 0,
      ClearInterval 0, OnLog ''Stop StreamerStats reporting'', WsClose,
      WsOpen ''wss://address/metrics'', WsSend (StringBody ''x'')]"
    by (simp add: eval_defs since_def nt)
  show ?thesis
    using a(1) n dec tr unfolding again by (simp del: step.simps exec.simps)
qed

end
